theory Spec2Isabelle
  imports Main "HOL-Library.Char_ord" "HOL-Library.List_Lexorder"
begin

section \<open>mediaplayerctl: data model\<close>

text \<open>
  The program keeps three containers, all keyed by \<^verbatim>\<open>std::string\<close>:
  \<^verbatim>\<open>
  enum State {STOPPED, PAUSED, PLAYING};
  using PlayerSet     = std::set<std::string>;
  using PlayerStates  = std::map<std::string, State>;
  using PlayerActions = std::map<std::string, std::string>;
  \<close>
  \<^verbatim>\<open>std::set\<close> and \<^verbatim>\<open>std::map\<close> iterate in ascending key order, and
  \<^verbatim>\<open>std::string\<close> is ordered bytewise and lexicographically, which is the order of
  \<^typ>\<open>char list\<close> here. A set is the list of its elements in iteration order and a
  map the list of its entries in iteration order; a list stands for a container exactly
  when it is strictly ascending (\<open>valid_set\<close>, \<open>valid_map\<close>).
\<close>

datatype State = STOPPED | PAUSED | PLAYING

type_synonym PlayerSet = "string list"
type_synonym PlayerStates = "(string \<times> State) list"
type_synonym PlayerActions = "(string \<times> string) list"

definition valid_set :: "'a::linorder list \<Rightarrow> bool" where
  "valid_set xs = sorted_wrt (<) xs"

definition valid_map :: "('a::linorder \<times> 'b) list \<Rightarrow> bool" where
  "valid_map m = sorted_wrt (<) (map fst m)"

text \<open>
  \<^verbatim>\<open>result.insert(x)\<close> on a \<^verbatim>\<open>std::set\<close>: the element goes to its place in the order;
  an element equivalent to one already there (neither below the other) is not inserted.
\<close>

fun set_insert :: "'a::linorder \<Rightarrow> 'a list \<Rightarrow> 'a list" where
  "set_insert x [] = [x]"
| "set_insert x (y # ys) =
     (if x < y then x # y # ys
      else if y < x then y # set_insert x ys
      else y # ys)"

text \<open>
  \<^verbatim>\<open>result[k] = v\<close> on a \<^verbatim>\<open>std::map\<close>: the entry of an equivalent key is
  overwritten, otherwise a new entry is made at the key's place in the order.
\<close>

fun map_assign :: "'a::linorder \<Rightarrow> 'b \<Rightarrow> ('a \<times> 'b) list \<Rightarrow> ('a \<times> 'b) list" where
  "map_assign k v [] = [(k, v)]"
| "map_assign k v ((k', v') # m) =
     (if k < k' then (k, v) # (k', v') # m
      else if k' < k then (k', v') # map_assign k v m
      else (k', v) # m)"

section \<open>Effects: the environment, the two output streams, the end of the process\<close>

text \<open>
  A proxy is made by \<^verbatim>\<open>Gio::DBus::Proxy::create_sync(connection, name, path, interface)\<close>
  and is identified by these three strings. \<^verbatim>\<open>Connection::get_sync\<close> and
  \<^verbatim>\<open>Proxy::create_sync\<close> either hand back the object, or hand back an empty
  reference (the case the source tests for), or throw a \<^verbatim>\<open>Glib::Error\<close>.
\<close>

type_synonym proxy = "string \<times> string \<times> string"

datatype creation = Made | Null | Throws string

text \<open>
  The environment of a run is everything the program takes from outside its own text:
  \<^item> \<open>locale_ok\<close>: whether \<^verbatim>\<open>std::locale("")\<close> can be built; if not, it throws;
  \<^item> \<open>ustring_eq\<close>: the equality of \<^verbatim>\<open>Glib::ustring\<close>, which the library decides by
    comparing the two texts under the collation of the locale, not byte by byte;
  \<^item> \<open>ustring_substr s i n\<close>: the characters of the \<^verbatim>\<open>Glib::ustring\<close> \<open>s\<close> from
    position \<open>i\<close> on, at most \<open>n\<close> of them, as the library cuts them out;
  \<^item> \<open>get_sync\<close>, \<open>create_sync\<close>: what the making of the session connection and of a
    proxy yields;
  \<^item> \<open>call_sync\<close>: what a synchronous call on a proxy yields, the text of the
    \<^verbatim>\<open>Glib::Error\<close> it throws (\<open>Inl\<close>) or the reply (\<open>Inr\<close>). A reply is a tuple; it
    is given as the list of its children, each child as the vector of strings that
    \<^verbatim>\<open>Glib::Variant<std::vector<Glib::ustring>>::get()\<close> reads out of it.

  One run never issues the same request twice, so the environment is a function of the
  request. Writing a text to a stream is taken to succeed.
\<close>

record Env =
  locale_ok :: bool
  ustring_eq :: "string \<Rightarrow> string \<Rightarrow> bool"
  ustring_substr :: "string \<Rightarrow> nat \<Rightarrow> nat \<Rightarrow> string"
  get_sync :: creation
  create_sync :: "proxy \<Rightarrow> creation"
  call_sync :: "proxy \<Rightarrow> string \<Rightarrow> string list \<Rightarrow> string + string list list"

text \<open>What a run does that can be seen from outside, in the order it happens.\<close>

datatype event =
    Connect
  | ProxyCreate proxy
  | CallSync proxy string "string list"
  | Stdout string
  | Stderr string

text \<open>
  How a run ends before its function returns: with the code passed to \<^verbatim>\<open>exit\<close>, or
  by an exception that nothing catches, which ends the process abnormally.
\<close>

datatype stop = Exit int | Abort

text \<open>
  A function of the program yields the events it caused and either the value it returns
  (\<open>Inr\<close>) or the way the run ended inside it (\<open>Inl\<close>).
\<close>

type_synonym 'a run = "event list \<times> (stop + 'a)"

section \<open>The program\<close>

text \<open>
  \<^verbatim>\<open>
  static std::string progname = "(unset)";
  auto usage() -> void {
      std::cout << "usage: " << progname
                << " <play|pause|playpause|stop|next|prev>" << std::endl;
  }
  \<close>
  The global is written once, by \<^verbatim>\<open>eval_args\<close>, before any use; it is passed along.
\<close>

definition usage :: "string \<Rightarrow> event list" where
  "usage progname = [Stdout (''usage: '' @ progname @ '' <play|pause|playpause|stop|next|prev>'')]"

text \<open>
  \<^verbatim>\<open>
  auto findPlayer(const PlayerStates& pstates, std::vector<State>&& states) -> PlayerSet {
      PlayerSet result;
      for (const auto& entry : pstates)
          for (const auto& state : states)
              if (entry.second == state)
                  result.insert(entry.first);
      return std::move(result);
  }
  \<close>
\<close>

definition findPlayer :: "PlayerStates \<Rightarrow> State list \<Rightarrow> PlayerSet" where
  "findPlayer pstates states =
     fold (\<lambda>entry result.
             fold (\<lambda>state result.
                     if snd entry = state then set_insert (fst entry) result else result)
                  states result)
          pstates []"

text \<open>
  \<^verbatim>\<open>evalActions(method, states)\<close>, branch by branch as in the source;
  \<^verbatim>\<open>*player.begin()\<close> is the first element of a set that was just tested non-empty.
  The last branch prints and calls \<^verbatim>\<open>exit(127)\<close>.
\<close>

definition evalActions :: "string \<Rightarrow> string \<Rightarrow> PlayerStates \<Rightarrow> PlayerActions run" where
  "evalActions progname method states =
     (let result = [];
          players_playing = findPlayer states [PLAYING]
      in
      if method = ''play'' then
        (if players_playing = [] then
           (let player = findPlayer states [PAUSED];
                player = (if player = [] then findPlayer states [STOPPED] else player)
            in if player \<noteq> [] then ([], Inr (map_assign (hd player) ''Play'' result))
               else ([], Inr result))
         else ([], Inr result))
      else if method = ''pause'' then
        ([], Inr (fold (\<lambda>player result. map_assign player ''Pause'' result)
                       players_playing result))
      else if method = ''playpause'' then
        (if players_playing = [] then
           (let player = findPlayer states [PAUSED];
                player = (if player = [] then findPlayer states [STOPPED] else player)
            in if player \<noteq> [] then ([], Inr (map_assign (hd player) ''Play'' result))
               else ([], Inr result))
         else
           ([], Inr (fold (\<lambda>player result. map_assign player ''Pause'' result)
                          players_playing result)))
      else if method = ''stop'' then
        (let players = findPlayer states [PLAYING, PAUSED]
         in ([], Inr (fold (\<lambda>player result. map_assign player ''Stop'' result)
                           players result)))
      else if method = ''next'' then
        (if players_playing \<noteq> [] then
           ([], Inr (map_assign (hd players_playing) ''Next'' result))
         else ([], Inr result))
      else if method = ''prev'' then
        (if players_playing \<noteq> [] then
           ([], Inr (map_assign (hd players_playing) ''Previous'' result))
         else ([], Inr result))
      else
        (Stderr (''Unknown method '' @ method) # usage progname, Inl (Exit 127)))"

text \<open>
  Sequencing: the events of the first part come first; when the run ends in the first
  part, the second is not run.
\<close>

definition bind_run :: "'a run \<Rightarrow> ('a \<Rightarrow> 'b run) \<Rightarrow> 'b run" where
  "bind_run m f =
     (case m of
        (evs, Inl stop) \<Rightarrow> (evs, Inl stop)
      | (evs, Inr x) \<Rightarrow> (case f x of (evs', r) \<Rightarrow> (evs @ evs', r)))"

definition emit :: "event list \<Rightarrow> unit run" where
  "emit evs = (evs, Inr ())"

text \<open>
  \<^verbatim>\<open>
  auto eval_args(int argc, char** argv) -> std::string {
      progname = argv[0];
      if (argc != 2) { usage(); exit (127); }
      return argv[1];
  }
  \<close>
  The command line is \<^verbatim>\<open>argv[0]\<close> and the list of the arguments after it, so
  \<^verbatim>\<open>argc\<close> is one more than the length of that list.
\<close>

definition eval_args :: "string \<Rightarrow> string list \<Rightarrow> string run" where
  "eval_args argv0 args =
     (if 1 + length args \<noteq> 2 then (usage argv0, Inl (Exit 127))
      else ([], Inr (args ! 0)))"

definition proxy_failed :: string where
  "proxy_failed = ''The proxy to the user's session bus was not successfully created.''"

definition got_an_error :: "string \<Rightarrow> string" where
  "got_an_error what = ''Got an error: '' @ [CHR 0x27] @ what @ [CHR 0x27] @ ''.''"

definition prefix :: string where
  "prefix = ''org.mpris.MediaPlayer2.''"

text \<open>
  \<^verbatim>\<open>getMediaPlayerInstances(connection)\<close>. The proxy is made outside the
  \<^verbatim>\<open>try\<close> block: an error thrown there is caught by nothing, an empty reference is
  \<^verbatim>\<open>exit (2)\<close>. Inside the block, a \<^verbatim>\<open>Glib::Error\<close> thrown by the call is caught
  and printed, and the set built so far (nothing) is returned;
  \<^verbatim>\<open>call_result.get_child(names_variant)\<close> on a reply without a child throws
  \<^verbatim>\<open>std::out_of_range\<close>, which the \<^verbatim>\<open>catch\<close> clause does not match.
  \<^verbatim>\<open>
  for (const auto& i : names) {
      static const std::string prefix = "org.mpris.MediaPlayer2.";
      if (i.compare(0, prefix.size(), prefix) == 0)
          result.insert(i);
  }
  \<close>
  Here \<^verbatim>\<open>i\<close> is a \<^verbatim>\<open>Glib::ustring\<close>: the comparison cuts the first
  \<^verbatim>\<open>prefix.size()\<close> characters out of it and compares them with the prefix as the
  library compares texts.
\<close>

definition getMediaPlayerInstances :: "Env \<Rightarrow> PlayerSet run" where
  "getMediaPlayerInstances env =
     (let result = [];
          proxy = (''org.freedesktop.DBus'', ''/org/freedesktop/DBus'', ''org.freedesktop.DBus'')
      in
      case create_sync env proxy of
        Throws what \<Rightarrow> ([ProxyCreate proxy], Inl Abort)
      | Null \<Rightarrow> ([ProxyCreate proxy, Stderr proxy_failed], Inl (Exit 2))
      | Made \<Rightarrow>
          bind_run (emit [ProxyCreate proxy, CallSync proxy ''ListNames'' []]) (\<lambda>_.
          case call_sync env proxy ''ListNames'' [] of
            Inl what \<Rightarrow> ([Stderr (got_an_error what)], Inr result)
          | Inr [] \<Rightarrow> ([], Inl Abort)
          | Inr (names # others) \<Rightarrow>
              ([], Inr (fold (\<lambda>i result.
                                if ustring_eq env (ustring_substr env i 0 (length prefix)) prefix
                                then set_insert i result
                                else result)
                             names result))))"

text \<open>
  \<^verbatim>\<open>getMediaPlayerStates(connection, players)\<close> is a loop over the set that fills
  the map \<^verbatim>\<open>result\<close>. One pass of the loop body, for one player and the map built so
  far. The proxy is made outside the \<^verbatim>\<open>try\<close> block: an error thrown there is caught
  by nothing, an empty reference is \<^verbatim>\<open>exit (3)\<close>. Inside the block:
  \<^verbatim>\<open>
  const auto call_result = proxy->call_sync("Get", parameter_variant);
  Glib::Variant<std::vector<GUString>> state_variant;
  call_result.get_child(state_variant);
  auto state = state_variant.get();
  if (state.size() != 1) {
      std::cerr << "Unable to determine state of " << player << std::endl;
      continue;
  }
  if (state[0] == "Playing") result[player] = PLAYING;
  else if (state[0] == "Paused") result[player] = PAUSED;
  else if (state[0] == "Stopped") result[player] = STOPPED;
  else {
      std::cerr << "Unknown state " << state[0] << " of " << player << std::endl;
      continue;
  }
  \<close>
  A \<^verbatim>\<open>Glib::Error\<close> thrown by the call is caught and printed; \<^verbatim>\<open>get_child\<close> on a
  reply without a child throws \<^verbatim>\<open>std::out_of_range\<close>, which is not caught;
  \<^verbatim>\<open>state[0] == "Playing"\<close> is the equality of \<^verbatim>\<open>Glib::ustring\<close>.
\<close>

definition getMediaPlayerStates_body :: "Env \<Rightarrow> string \<Rightarrow> PlayerStates \<Rightarrow> PlayerStates run" where
  "getMediaPlayerStates_body env player result =
     (let proxy = (player, ''/org/mpris/MediaPlayer2'', ''org.freedesktop.DBus.Properties'')
      in
      case create_sync env proxy of
        Throws what \<Rightarrow> ([ProxyCreate proxy], Inl Abort)
      | Null \<Rightarrow> ([ProxyCreate proxy, Stderr proxy_failed], Inl (Exit 3))
      | Made \<Rightarrow>
          (let parameters = [''org.mpris.MediaPlayer2.Player'', ''PlaybackStatus'']
           in
           bind_run (emit [ProxyCreate proxy, CallSync proxy ''Get'' parameters]) (\<lambda>_.
           case call_sync env proxy ''Get'' parameters of
             Inl what \<Rightarrow> ([Stderr (got_an_error what)], Inr result)
           | Inr [] \<Rightarrow> ([], Inl Abort)
           | Inr (state # others) \<Rightarrow>
               if length state \<noteq> 1 then
                 ([Stderr (''Unable to determine state of '' @ player)], Inr result)
               else if ustring_eq env (state ! 0) ''Playing'' then
                 ([], Inr (map_assign player PLAYING result))
               else if ustring_eq env (state ! 0) ''Paused'' then
                 ([], Inr (map_assign player PAUSED result))
               else if ustring_eq env (state ! 0) ''Stopped'' then
                 ([], Inr (map_assign player STOPPED result))
               else
                 ([Stderr (''Unknown state '' @ state ! 0 @ '' of '' @ player)], Inr result))))"

fun getMediaPlayerStates_loop :: "Env \<Rightarrow> string list \<Rightarrow> PlayerStates \<Rightarrow> PlayerStates run" where
  "getMediaPlayerStates_loop env [] result = ([], Inr result)"
| "getMediaPlayerStates_loop env (player # players) result =
     bind_run (getMediaPlayerStates_body env player result)
       (\<lambda>result. getMediaPlayerStates_loop env players result)"

definition getMediaPlayerStates :: "Env \<Rightarrow> PlayerSet \<Rightarrow> PlayerStates run" where
  "getMediaPlayerStates env players = getMediaPlayerStates_loop env players []"

text \<open>
  \<^verbatim>\<open>execMediaPlayerMethod(connection, player, meth)\<close>: the proxy is made outside the
  \<^verbatim>\<open>try\<close> block, an empty reference is \<^verbatim>\<open>exit (4)\<close>; a \<^verbatim>\<open>Glib::Error\<close> thrown
  by the call is caught and printed; the reply is not looked at.
\<close>

definition execMediaPlayerMethod :: "Env \<Rightarrow> string \<Rightarrow> string \<Rightarrow> unit run" where
  "execMediaPlayerMethod env player meth =
     (let proxy = (player, ''/org/mpris/MediaPlayer2'', ''org.mpris.MediaPlayer2.Player'')
      in
      case create_sync env proxy of
        Throws what \<Rightarrow> ([ProxyCreate proxy], Inl Abort)
      | Null \<Rightarrow> ([ProxyCreate proxy, Stderr proxy_failed], Inl (Exit 4))
      | Made \<Rightarrow>
          bind_run (emit [ProxyCreate proxy, CallSync proxy meth []]) (\<lambda>_.
          case call_sync env proxy meth [] of
            Inl what \<Rightarrow> ([Stderr (got_an_error what)], Inr ())
          | Inr reply \<Rightarrow> ([], Inr ())))"

text \<open>
  The last loop of \<^verbatim>\<open>main\<close>:
  \<^verbatim>\<open>
  for (const auto& action : actions) {
      if (action.second.empty()) continue;
      execMediaPlayerMethod(connection, action.first, action.second);
  }
  \<close>
\<close>

fun exec_loop :: "Env \<Rightarrow> PlayerActions \<Rightarrow> unit run" where
  "exec_loop env [] = ([], Inr ())"
| "exec_loop env (action # actions) =
     (if snd action = [] then exec_loop env actions
      else bind_run (execMediaPlayerMethod env (fst action) (snd action))
             (\<lambda>_. exec_loop env actions))"

text \<open>
  \<^verbatim>\<open>main(argc, argv)\<close>. A run of the whole program is its events and the way it
  ends; \<^verbatim>\<open>return n\<close> from \<^verbatim>\<open>main\<close> ends it as \<^verbatim>\<open>exit(n)\<close> does.
  \<^verbatim>\<open>
  std::locale::global(std::locale(""));
  Gio::init();
  std::string method = eval_args(argc, argv);
  auto connection = Gio::DBus::Connection::get_sync(Gio::DBus::BusType::BUS_TYPE_SESSION);
  if (!connection) {
      std::cerr << "The user's session bus is not available." << std::endl;
      return 1;
  }
  auto players = getMediaPlayerInstances(connection);
  if (players.empty()) {
      std::cout << "no player found." << std::endl;
      return 0;
  }
  auto states = getMediaPlayerStates(connection, players);
  auto actions = evalActions(method, states);
  for (const auto& action : actions) { ... }
  return 0;
  \<close>
  Nothing in \<^verbatim>\<open>main\<close> catches an exception: when the locale cannot be built, or
  \<^verbatim>\<open>get_sync\<close> throws, the run ends there.
\<close>

definition main_body :: "string \<Rightarrow> string list \<Rightarrow> Env \<Rightarrow> int run" where
  "main_body argv0 args env =
     (if \<not> locale_ok env then ([], Inl Abort)
      else
        bind_run (eval_args argv0 args) (\<lambda>method.
        bind_run (emit [Connect]) (\<lambda>_.
        case get_sync env of
          Throws what \<Rightarrow> ([], Inl Abort)
        | Null \<Rightarrow> ([Stderr ''The user's session bus is not available.''], Inr 1)
        | Made \<Rightarrow>
            bind_run (getMediaPlayerInstances env) (\<lambda>players.
            if players = [] then
              ([Stdout ''no player found.''], Inr 0)
            else
              bind_run (getMediaPlayerStates env players) (\<lambda>states.
              bind_run (evalActions argv0 method states) (\<lambda>actions.
              bind_run (exec_loop env actions) (\<lambda>_.
              ([], Inr 0))))))))"

definition main :: "string \<Rightarrow> string list \<Rightarrow> Env \<Rightarrow> event list \<times> stop" where
  "main argv0 args env =
     (case main_body argv0 args env of
        (evs, Inl stop) \<Rightarrow> (evs, stop)
      | (evs, Inr code) \<Rightarrow> (evs, Exit code))"

section \<open>Notions used to state the properties\<close>

text \<open>
  The players that a state map holds in a given state. In a valid map a key occurs in
  one entry only, so this is the set of keys mapped to that state.
\<close>

abbreviation players_in :: "PlayerStates \<Rightarrow> State \<Rightarrow> string set" where
  "players_in states s \<equiv> {p. (p, s) \<in> set states}"

text \<open>
  The proxy of the registrar, made by \<^verbatim>\<open>getMediaPlayerInstances\<close>; the proxy of a
  player's properties, made by \<^verbatim>\<open>getMediaPlayerStates\<close>; and the proxy of a
  player's control interface, made by \<^verbatim>\<open>execMediaPlayerMethod\<close> only.
\<close>

abbreviation registrar :: proxy where
  "registrar \<equiv> (''org.freedesktop.DBus'', ''/org/freedesktop/DBus'', ''org.freedesktop.DBus'')"

abbreviation properties_proxy :: "string \<Rightarrow> proxy" where
  "properties_proxy player \<equiv>
     (player, ''/org/mpris/MediaPlayer2'', ''org.freedesktop.DBus.Properties'')"

abbreviation player_proxy :: "string \<Rightarrow> proxy" where
  "player_proxy player \<equiv> (player, ''/org/mpris/MediaPlayer2'', ''org.mpris.MediaPlayer2.Player'')"

text \<open>
  What the query of one player's \<^verbatim>\<open>PlaybackStatus\<close> yields, and the state that the
  reply stands for, if any: the first child of the reply holds one string, and that
  string is equal, as \<^verbatim>\<open>Glib::ustring\<close>, to the first of \<^verbatim>\<open>Playing\<close>,
  \<^verbatim>\<open>Paused\<close>, \<^verbatim>\<open>Stopped\<close>, tried in this order, that it is equal to at all.
\<close>

abbreviation state_query :: "string \<Rightarrow> event" where
  "state_query player \<equiv>
     CallSync (properties_proxy player) ''Get'' [''org.mpris.MediaPlayer2.Player'', ''PlaybackStatus'']"

abbreviation state_reply :: "Env \<Rightarrow> string \<Rightarrow> string + string list list" where
  "state_reply env player \<equiv>
     call_sync env (properties_proxy player)
       ''Get'' [''org.mpris.MediaPlayer2.Player'', ''PlaybackStatus'']"

abbreviation reports :: "Env \<Rightarrow> string \<Rightarrow> State \<Rightarrow> bool" where
  "reports env player s \<equiv>
     \<exists>word others. state_reply env player = Inr ([word] # others) \<and>
       (ustring_eq env word ''Playing'' \<and> s = PLAYING \<or>
        \<not> ustring_eq env word ''Playing'' \<and> ustring_eq env word ''Paused'' \<and> s = PAUSED \<or>
        \<not> ustring_eq env word ''Playing'' \<and> \<not> ustring_eq env word ''Paused'' \<and>
          ustring_eq env word ''Stopped'' \<and> s = STOPPED)"

text \<open>
  The names of a \<^verbatim>\<open>ListNames\<close> reply that \<^verbatim>\<open>getMediaPlayerInstances\<close> keeps, as the
  set it returns.
\<close>

abbreviation discovered :: "Env \<Rightarrow> string list \<Rightarrow> PlayerSet" where
  "discovered env names \<equiv>
     fold (\<lambda>i result.
             if ustring_eq env (ustring_substr env i 0 (length prefix)) prefix
             then set_insert i result
             else result)
          names []"

section \<open>Sample players and environments\<close>

abbreviation firefox :: string where "firefox \<equiv> ''org.mpris.MediaPlayer2.firefox''"

abbreviation mpv :: string where "mpv \<equiv> ''org.mpris.MediaPlayer2.mpv''"

abbreviation vlc :: string where "vlc \<equiv> ''org.mpris.MediaPlayer2.vlc''"

abbreviation VLC :: string where "VLC \<equiv> ''org.mpris.MediaPlayer2.VLC''"

abbreviation five_players :: PlayerSet where
  "five_players \<equiv>
     [''org.mpris.MediaPlayer2.firefox'', ''org.mpris.MediaPlayer2.mpv'',
      ''org.mpris.MediaPlayer2.rhythmbox'', ''org.mpris.MediaPlayer2.spotify'',
      ''org.mpris.MediaPlayer2.vlc'']"

text \<open>
  An environment in which the locale, the connection and every proxy can be made, and
  every call is answered by a reply without a child. All its texts are ASCII, for which
  the library's equality and cutting are those of the bytes.
\<close>

definition env_plain :: Env where
  "env_plain =
     \<lparr>locale_ok = True,
      ustring_eq = (\<lambda>a b. a = b),
      ustring_substr = (\<lambda>s i n. take n (drop i s)),
      get_sync = Made,
      create_sync = (\<lambda>proxy. Made),
      call_sync = (\<lambda>proxy meth args. Inr [])\<rparr>"

text \<open>The same, but every call fails with a transport error.\<close>

definition env_registrar_error :: Env where
  "env_registrar_error =
     env_plain\<lparr>call_sync := (\<lambda>proxy meth args. Inl ''Timeout was reached'')\<rparr>"

text \<open>No media player is registered.\<close>

definition env_no_player :: Env where
  "env_no_player =
     env_plain\<lparr>call_sync := (\<lambda>proxy meth args.
        if meth = ''ListNames'' then Inr [[''org.freedesktop.DBus'', '':1.42'']] else Inr [])\<rparr>"

text \<open>One player, which is playing.\<close>

definition env_one_player :: Env where
  "env_one_player =
     env_plain\<lparr>call_sync := (\<lambda>proxy meth args.
        if meth = ''ListNames'' then
          Inr [[''org.freedesktop.DBus'', '':1.42'', ''org.mpris.MediaPlayer2.vlc'']]
        else if meth = ''Get'' then Inr [[''Playing'']]
        else Inr [])\<rparr>"

text \<open>
  Five players: one playing, one paused, one that answers with two strings, one that
  answers with a text that is no state, and one whose query times out.
\<close>

definition env_five_players :: Env where
  "env_five_players =
     env_plain\<lparr>call_sync := (\<lambda>proxy meth args.
        if meth = ''ListNames'' then
          Inr [[''org.freedesktop.DBus'', ''org.mpris.MediaPlayer2.vlc'', '':1.42'',
                ''org.mpris.MediaPlayer2.mpv'', ''org.mpris.MediaPlayer2.firefox'',
                ''org.mpris.MediaPlayer2.spotify'', ''org.mpris.MediaPlayer2.rhythmbox'']]
        else if meth = ''Get'' then
          (if fst proxy = ''org.mpris.MediaPlayer2.mpv'' then Inr [[''Playing'']]
           else if fst proxy = ''org.mpris.MediaPlayer2.rhythmbox'' then Inr [[''Paused'']]
           else if fst proxy = ''org.mpris.MediaPlayer2.spotify'' then Inr [[''Playing'', ''Playing'']]
           else if fst proxy = ''org.mpris.MediaPlayer2.vlc'' then Inr [[''Buffering'']]
           else Inl ''Timeout was reached'')
        else Inr [])\<rparr>"

text \<open>
  One player, whose status text is \<^verbatim>\<open>Playing\<close> written with the fullwidth letter P
  (U+FF30, the bytes EF BC B0) in front. The equality of the environment does not tell
  that letter, at the head of a text, from the letter P, as a comparison that
  normalises its arguments does not.
\<close>

definition fullwidth_Playing :: string where
  "fullwidth_Playing = [CHR 0xEF, CHR 0xBC, CHR 0xB0] @ ''laying''"

definition narrow_head :: "string \<Rightarrow> string" where
  "narrow_head s =
     (if take 3 s = [CHR 0xEF, CHR 0xBC, CHR 0xB0] then CHR ''P'' # drop 3 s else s)"

definition env_fullwidth :: Env where
  "env_fullwidth =
     env_plain\<lparr>ustring_eq := (\<lambda>a b. narrow_head a = narrow_head b),
               call_sync := (\<lambda>proxy meth args.
                 if meth = ''ListNames'' then Inr [[''org.mpris.MediaPlayer2.vlc'']]
                 else if meth = ''Get'' then Inr [[fullwidth_Playing]]
                 else Inr [])\<rparr>"

text \<open>
  One player, whose property call is answered by a reply without a child, and one
  that is playing.
\<close>

definition env_empty_reply :: Env where
  "env_empty_reply =
     env_plain\<lparr>call_sync := (\<lambda>proxy meth args.
        if meth = ''ListNames'' then
          Inr [[''org.mpris.MediaPlayer2.mpv'', ''org.mpris.MediaPlayer2.vlc'']]
        else if meth = ''Get'' then
          (if fst proxy = ''org.mpris.MediaPlayer2.vlc'' then Inr [[''Playing'']] else Inr [])
        else Inr [])\<rparr>"

section \<open>Properties of the containers\<close>

lemma set_set_insert: "set (set_insert x xs) = insert x (set xs)"
  by (induction xs) auto

lemma valid_set_insert: "valid_set xs \<Longrightarrow> valid_set (set_insert x xs)"
  unfolding valid_set_def
  by (induction xs) (auto simp: set_set_insert)

lemma in_map_assign: "e \<in> set (map_assign k v m) \<Longrightarrow> fst e = k \<or> e \<in> set m"
  by (induction m) (auto split: if_splits)

lemma valid_map_assign: "valid_map m \<Longrightarrow> valid_map (map_assign k v m)"
  unfolding valid_map_def
proof (induction m)
  case Nil
  then show ?case by simp
next
  case (Cons e m)
  obtain k' v' where e: "e = (k', v')" by (cases e)
  have "\<forall>x \<in> set (map_assign k v m). k' < fst x" if "k' < k"
    using that Cons.prems in_map_assign[of _ k v m] unfolding e by auto
  then show ?case using Cons unfolding e by auto
qed

lemma set_map_assign:
  "valid_map m \<Longrightarrow> set (map_assign k v m) = insert (k, v) {e \<in> set m. fst e \<noteq> k}"
  unfolding valid_map_def
  by (induction m) (auto split: if_splits; force)+

lemma hd_valid_set_least: "valid_set xs \<Longrightarrow> y \<in> set xs \<Longrightarrow> hd xs \<le> y"
  unfolding valid_set_def by (cases xs) auto

lemma fold_inner:
  "set (fold (\<lambda>state result. if s = state then set_insert p result else result) ss acc)
     = (if s \<in> set ss then insert p (set acc) else set acc)"
  by (induction ss arbitrary: acc) (auto simp: set_set_insert)

lemma fold_inner_valid:
  "valid_set acc \<Longrightarrow> valid_set (fold (\<lambda>state result. if s = state then set_insert p result else result) ss acc)"
  by (induction ss arbitrary: acc) (auto simp: valid_set_insert)

lemma fold_outer:
  "set (fold (\<lambda>entry result.
             fold (\<lambda>state result.
                     if snd entry = state then set_insert (fst entry) result else result)
                  ss result) ps acc) = set acc \<union> {p. \<exists>s \<in> set ss. (p, s) \<in> set ps}"
  by (induction ps arbitrary: acc) (auto simp: fold_inner)

lemma fold_outer_valid:
  "valid_set acc \<Longrightarrow> valid_set (fold (\<lambda>entry result.
             fold (\<lambda>state result.
                     if snd entry = state then set_insert (fst entry) result else result)
                  ss result) ps acc)"
  by (induction ps arbitrary: acc) (auto simp: fold_inner_valid)

lemma set_findPlayer: "set (findPlayer ps ss) = {p. \<exists>s \<in> set ss. (p, s) \<in> set ps}"
  unfolding findPlayer_def by (simp add: fold_outer)

lemma valid_findPlayer: "valid_set (findPlayer ps ss)"
  unfolding findPlayer_def by (rule fold_outer_valid) (simp add: valid_set_def)

lemma fold_assign_valid:
  "valid_map acc \<Longrightarrow> valid_map (fold (\<lambda>player result. map_assign player v result) ps acc)"
  by (induction ps arbitrary: acc) (auto simp: valid_map_assign)

lemma fold_assign_set:
  "valid_map acc \<Longrightarrow> set (fold (\<lambda>player result. map_assign player v result) ps acc)
     = (\<lambda>p. (p, v)) ` set ps \<union> {e \<in> set acc. fst e \<notin> set ps}"
  by (induction ps arbitrary: acc) (auto simp: valid_map_assign set_map_assign)

section \<open>Properties of \<open>findPlayer\<close> and of the branches of \<open>evalActions\<close>\<close>

lemma findPlayer_empty_iff:
  "findPlayer states ss = [] \<longleftrightarrow> (\<forall>s \<in> set ss. s \<notin> snd ` set states)"
proof -
  have "findPlayer states ss = [] \<longleftrightarrow> set (findPlayer states ss) = {}" by simp
  also have "\<dots> \<longleftrightarrow> (\<forall>s \<in> set ss. s \<notin> snd ` set states)"
    unfolding set_findPlayer by force
  finally show ?thesis .
qed

lemma hd_findPlayer_in:
  assumes "findPlayer states ss \<noteq> []"
  shows "\<exists>s \<in> set ss. (hd (findPlayer states ss), s) \<in> set states"
proof -
  have "hd (findPlayer states ss) \<in> set (findPlayer states ss)" using assms by simp
  then show ?thesis unfolding set_findPlayer by simp
qed

lemma hd_findPlayer_least:
  assumes "(q, s) \<in> set states" "s \<in> set ss"
  shows "hd (findPlayer states ss) \<le> q"
proof -
  have "q \<in> set (findPlayer states ss)" unfolding set_findPlayer using assms by auto
  then show ?thesis using hd_valid_set_least[OF valid_findPlayer] by blast
qed

lemma evalActions_play:
  "evalActions pn ''play'' states =
     ([], Inr (if findPlayer states [PLAYING] \<noteq> [] then []
               else if findPlayer states [PAUSED] \<noteq> [] then [(hd (findPlayer states [PAUSED]), ''Play'')]
               else if findPlayer states [STOPPED] \<noteq> [] then [(hd (findPlayer states [STOPPED]), ''Play'')]
               else []))"
  by (simp add: evalActions_def Let_def)

lemma evalActions_pause:
  "evalActions pn ''pause'' states =
     ([], Inr (fold (\<lambda>player result. map_assign player ''Pause'' result) (findPlayer states [PLAYING]) []))"
  by (simp add: evalActions_def Let_def)

lemma evalActions_playpause:
  "evalActions pn ''playpause'' states =
     (if findPlayer states [PLAYING] \<noteq> [] then evalActions pn ''pause'' states
      else evalActions pn ''play'' states)"
  by (simp add: evalActions_def Let_def)

lemma evalActions_stop:
  "evalActions pn ''stop'' states =
     ([], Inr (fold (\<lambda>player result. map_assign player ''Stop'' result) (findPlayer states [PLAYING, PAUSED]) []))"
  by (simp add: evalActions_def Let_def)

lemma evalActions_next:
  "evalActions pn ''next'' states =
     ([], Inr (if findPlayer states [PLAYING] \<noteq> [] then [(hd (findPlayer states [PLAYING]), ''Next'')] else []))"
  by (simp add: evalActions_def Let_def)

lemma evalActions_prev:
  "evalActions pn ''prev'' states =
     ([], Inr (if findPlayer states [PLAYING] \<noteq> [] then [(hd (findPlayer states [PLAYING]), ''Previous'')] else []))"
  by (simp add: evalActions_def Let_def)

lemma evalActions_unknown:
  assumes "method \<notin> {''play'', ''pause'', ''playpause'', ''stop'', ''next'', ''prev''}"
  shows "evalActions pn method states =
           (Stderr (''Unknown method '' @ method) # usage pn, Inl (Exit 127))"
  using assms by (simp add: evalActions_def Let_def)

lemma fold_assign_plan:
  "set (fold (\<lambda>player result. map_assign player v result) ps []) = (\<lambda>p. (p, v)) ` set ps"
  using fold_assign_set[of "[]" v ps] by (simp add: valid_map_def)

lemma valid_map_unique:
  "valid_map m \<Longrightarrow> (k, v) \<in> set m \<Longrightarrow> (k, v') \<in> set m \<Longrightarrow> v = v'"
  unfolding valid_map_def
  by (induction m) force+

lemma findPlayer_single_empty: "findPlayer states [s] = [] \<longleftrightarrow> s \<notin> snd ` set states"
  using findPlayer_empty_iff[of states "[s]"] by simp

lemma hd_findPlayer_single:
  "s \<in> snd ` set states \<Longrightarrow> (hd (findPlayer states [s]), s) \<in> set states"
  using hd_findPlayer_in[of states "[s]"] findPlayer_single_empty[of states s] by simp

lemma hd_findPlayer_single_least:
  "(q, s) \<in> set states \<Longrightarrow> hd (findPlayer states [s]) \<le> q"
  using hd_findPlayer_least[of q s states "[s]"] by simp

lemma evalActions_keys:
  assumes "evalActions pn method states = (evs, Inr plan)"
  shows "fst ` set plan \<subseteq> fst ` set states"
proof -
  have hd_key: "hd (findPlayer states ss) \<in> fst ` set states" if "findPlayer states ss \<noteq> []" for ss
    using hd_findPlayer_in[OF that] by force
  have fold_keys: "fst ` set (fold (\<lambda>player result. map_assign player v result) (findPlayer states ss) [])
                     \<subseteq> fst ` set states" for v :: string and ss
    unfolding fold_assign_plan set_findPlayer by force
  consider "method = ''play''" | "method = ''pause''" | "method = ''playpause''"
    | "method = ''stop''" | "method = ''next''" | "method = ''prev''"
    | "method \<notin> {''play'', ''pause'', ''playpause'', ''stop'', ''next'', ''prev''}"
    by blast
  then show ?thesis
  proof cases
    case 1
    show ?thesis using assms hd_key unfolding 1 evalActions_play
      by (auto split: if_splits)
  next
    case 2
    show ?thesis using assms fold_keys[of "''Pause''" "[PLAYING]"] unfolding 2 evalActions_pause
      by auto
  next
    case 3
    show ?thesis using assms hd_key fold_keys[of "''Pause''" "[PLAYING]"] unfolding 3 evalActions_playpause evalActions_play evalActions_pause
      by (auto split: if_splits)
  next
    case 4
    show ?thesis using assms fold_keys[of "''Stop''" "[PLAYING, PAUSED]"] unfolding 4 evalActions_stop
      by auto
  next
    case 5
    show ?thesis using assms hd_key unfolding 5 evalActions_next
      by (auto split: if_splits)
  next
    case 6
    show ?thesis using assms hd_key unfolding 6 evalActions_prev
      by (auto split: if_splits)
  next
    case 7
    then show ?thesis using assms evalActions_unknown[OF 7, of pn states] by simp
  qed
qed

section \<open>Properties of the run of several steps and of the aggregation loop\<close>

lemma snd_bind_emit: "snd (bind_run (emit evs) f) = snd (f ())"
  by (simp add: bind_run_def emit_def split: prod.splits)

lemma fst_bind_emit: "fst (bind_run (emit evs) f) = evs @ fst (f ())"
  by (simp add: bind_run_def emit_def split: prod.splits)

lemma snd_bind_run:
  "snd (bind_run m f) = (case snd m of Inl stop \<Rightarrow> Inl stop | Inr x \<Rightarrow> snd (f x))"
  by (simp add: bind_run_def split: prod.splits sum.splits)

lemma fst_bind_run:
  "fst (bind_run m f) = (case snd m of Inl stop \<Rightarrow> fst m | Inr x \<Rightarrow> fst m @ fst (f x))"
  by (simp add: bind_run_def split: prod.splits sum.splits)

lemma set_fst_bind_run:
  "set (fst (bind_run m f)) \<subseteq> set (fst m) \<union> (\<Union>x. set (fst (f x)))"
  by (auto simp: fst_bind_run split: sum.splits)

lemma body_stops:
  assumes "create_sync env (properties_proxy player) \<noteq> Made \<or> state_reply env player = Inr []"
  shows "\<exists>stop. snd (getMediaPlayerStates_body env player acc) = Inl stop"
  using assms
  by (cases "create_sync env (properties_proxy player)")
     (auto simp: getMediaPlayerStates_body_def snd_bind_emit Let_def)

lemma one_string: "length xs = 1 \<Longrightarrow> xs = [xs ! 0]"
  by (cases xs) auto

lemma body_return:
  assumes "create_sync env (properties_proxy player) = Made"
    and "state_reply env player \<noteq> Inr []"
  shows "snd (getMediaPlayerStates_body env player acc) =
           Inr (if reports env player PLAYING then map_assign player PLAYING acc
                else if reports env player PAUSED then map_assign player PAUSED acc
                else if reports env player STOPPED then map_assign player STOPPED acc
                else acc)"
proof (cases "state_reply env player")
  case (Inl what)
  then show ?thesis using assms
    by (simp add: getMediaPlayerStates_body_def snd_bind_emit Let_def)
next
  case (Inr reply)
  then obtain state others where reply: "reply = state # others"
    using assms(2) by (cases reply) auto
  show ?thesis
  proof (cases "length state = 1")
    case True
    then obtain word where "state = [word]" using one_string by blast
    then show ?thesis using assms Inr reply
      by (simp add: getMediaPlayerStates_body_def snd_bind_emit Let_def)
  next
    case False
    then have "state \<noteq> [word]" for word by auto
    then show ?thesis using assms Inr reply False
      by (simp add: getMediaPlayerStates_body_def snd_bind_emit Let_def)
  qed
qed

lemma body_trace:
  assumes "create_sync env (properties_proxy player) = Made"
    and "state_reply env player \<noteq> Inr []"
  shows "\<exists>lines. (\<forall>e \<in> set lines. \<exists>t. e = Stderr t) \<and>
           (\<forall>acc. fst (getMediaPlayerStates_body env player acc) =
                    ProxyCreate (properties_proxy player) # state_query player # lines)"
proof (cases "state_reply env player")
  case (Inl what)
  then have "\<forall>acc. fst (getMediaPlayerStates_body env player acc) =
               ProxyCreate (properties_proxy player) # state_query player # [Stderr (got_an_error what)]"
    using assms by (simp add: getMediaPlayerStates_body_def fst_bind_emit Let_def)
  then show ?thesis by (intro exI[of _ "[Stderr (got_an_error what)]"]) simp
next
  case (Inr reply)
  then obtain state others where reply: "reply = state # others"
    using assms(2) by (cases reply) auto
  let ?lines = "if length state \<noteq> 1 then [Stderr (''Unable to determine state of '' @ player)]
                else if ustring_eq env (state ! 0) ''Playing'' then []
                else if ustring_eq env (state ! 0) ''Paused'' then []
                else if ustring_eq env (state ! 0) ''Stopped'' then []
                else [Stderr (''Unknown state '' @ state ! 0 @ '' of '' @ player)]"
  have "\<forall>acc. fst (getMediaPlayerStates_body env player acc) =
               ProxyCreate (properties_proxy player) # state_query player # ?lines"
    using assms Inr reply
    by (simp add: getMediaPlayerStates_body_def fst_bind_emit Let_def del: One_nat_def)
  moreover have "\<forall>e \<in> set ?lines. \<exists>t. e = Stderr t" by simp
  ultimately show ?thesis by blast
qed

lemma loop_returns:
  assumes "\<forall>p \<in> set players.
             create_sync env (properties_proxy p) = Made \<and> state_reply env p \<noteq> Inr []"
  shows "\<exists>result. snd (getMediaPlayerStates_loop env players acc) = Inr result"
  using assms
proof (induction players arbitrary: acc)
  case Nil
  then show ?case by simp
next
  case (Cons player players)
  then show ?case by (simp add: snd_bind_run body_return)
qed

lemma loop_trace:
  assumes "\<forall>p \<in> set players.
             create_sync env (properties_proxy p) = Made \<and> state_reply env p \<noteq> Inr []"
  shows "\<exists>lines. (\<forall>p. \<forall>e \<in> set (lines p). \<exists>t. e = Stderr t) \<and>
           (\<forall>acc. fst (getMediaPlayerStates_loop env players acc) =
                    concat (map (\<lambda>p. ProxyCreate (properties_proxy p) # state_query p # lines p)
                                players))"
proof -
  have "\<forall>p. \<exists>ls. (\<forall>e \<in> set ls. \<exists>t. e = Stderr t) \<and>
          (p \<in> set players \<longrightarrow>
             (\<forall>acc. fst (getMediaPlayerStates_body env p acc) =
                      ProxyCreate (properties_proxy p) # state_query p # ls))"
  proof
    fix p
    show "\<exists>ls. (\<forall>e \<in> set ls. \<exists>t. e = Stderr t) \<and>
          (p \<in> set players \<longrightarrow>
             (\<forall>acc. fst (getMediaPlayerStates_body env p acc) =
                      ProxyCreate (properties_proxy p) # state_query p # ls))"
    proof (cases "p \<in> set players")
      case True
      then show ?thesis using assms body_trace[of env p] by blast
    next
      case False
      then show ?thesis by (intro exI[of _ "[]"]) simp
    qed
  qed
  then obtain lines where lines: "\<forall>p. (\<forall>e \<in> set (lines p). \<exists>t. e = Stderr t) \<and>
          (p \<in> set players \<longrightarrow>
             (\<forall>acc. fst (getMediaPlayerStates_body env p acc) =
                      ProxyCreate (properties_proxy p) # state_query p # lines p))"
    by metis
  have "\<forall>acc. fst (getMediaPlayerStates_loop env ps acc) =
          concat (map (\<lambda>p. ProxyCreate (properties_proxy p) # state_query p # lines p) ps)"
    if "set ps \<subseteq> set players" for ps
    using that
  proof (induction ps)
    case Nil
    then show ?case by simp
  next
    case (Cons q ps)
    have q: "q \<in> set players" using Cons.prems by simp
    have ok: "create_sync env (properties_proxy q) = Made" "state_reply env q \<noteq> Inr []"
      using assms q by auto
    have b: "fst (getMediaPlayerStates_body env q acc) =
               ProxyCreate (properties_proxy q) # state_query q # lines q" for acc
      using lines q by blast
    have r: "\<exists>acc'. snd (getMediaPlayerStates_body env q acc) = Inr acc'" for acc
      using body_return[OF ok] by simp
    have IH: "fst (getMediaPlayerStates_loop env ps acc) =
          concat (map (\<lambda>p. ProxyCreate (properties_proxy p) # state_query p # lines p) ps)" for acc
      using Cons by simp
    show ?case
    proof
      fix acc
      obtain acc' where "snd (getMediaPlayerStates_body env q acc) = Inr acc'" using r by blast
      then show "fst (getMediaPlayerStates_loop env (q # ps) acc) =
          concat (map (\<lambda>p. ProxyCreate (properties_proxy p) # state_query p # lines p) (q # ps))"
        by (simp add: fst_bind_run b IH)
    qed
  qed
  then show ?thesis using lines by blast
qed

lemma reports_unique:
  assumes "reports env p s" and "reports env p s'"
  shows "s = s'"
proof -
  from assms(1) obtain word others where 1: "state_reply env p = Inr ([word] # others)"
    and 2: "ustring_eq env word ''Playing'' \<and> s = PLAYING \<or>
        \<not> ustring_eq env word ''Playing'' \<and> ustring_eq env word ''Paused'' \<and> s = PAUSED \<or>
        \<not> ustring_eq env word ''Playing'' \<and> \<not> ustring_eq env word ''Paused'' \<and>
          ustring_eq env word ''Stopped'' \<and> s = STOPPED"
    by blast
  from assms(2) obtain word' others' where 3: "state_reply env p = Inr ([word'] # others')"
    and 4: "ustring_eq env word' ''Playing'' \<and> s' = PLAYING \<or>
        \<not> ustring_eq env word' ''Playing'' \<and> ustring_eq env word' ''Paused'' \<and> s' = PAUSED \<or>
        \<not> ustring_eq env word' ''Playing'' \<and> \<not> ustring_eq env word' ''Paused'' \<and>
          ustring_eq env word' ''Stopped'' \<and> s' = STOPPED"
    by blast
  from 1 3 have "word' = word" by simp
  with 2 4 show ?thesis by blast
qed

lemma loop_result:
  assumes "snd (getMediaPlayerStates_loop env players acc) = Inr result" "valid_map acc"
  shows "valid_map result \<and>
         (\<forall>p s. (p, s) \<in> set result \<longleftrightarrow>
                  (p \<in> set players \<and> reports env p s) \<or>
                  ((p, s) \<in> set acc \<and> (p \<notin> set players \<or> (\<forall>s'. \<not> reports env p s'))))"
proof -
  define R where "R p s = reports env p s" for p s
  have uniq: "s = s'" if "R p s" "R p s'" for p s s'
    using that reports_unique unfolding R_def by blast
  have step: "snd (getMediaPlayerStates_body env player acc) =
                Inr (if R player PLAYING then map_assign player PLAYING acc
                     else if R player PAUSED then map_assign player PAUSED acc
                     else if R player STOPPED then map_assign player STOPPED acc
                     else acc)"
    if "create_sync env (properties_proxy player) = Made" "state_reply env player \<noteq> Inr []"
    for player acc
    unfolding R_def by (rule body_return[OF that])
  have "valid_map result \<and>
         (\<forall>p s. (p, s) \<in> set result \<longleftrightarrow>
                  (p \<in> set players \<and> R p s) \<or>
                  ((p, s) \<in> set acc \<and> (p \<notin> set players \<or> (\<forall>s'. \<not> R p s'))))"
    using assms
  proof (induction players arbitrary: acc)
    case Nil
    then show ?case by simp
  next
    case (Cons player players)
    have ok: "create_sync env (properties_proxy player) = Made \<and> state_reply env player \<noteq> Inr []"
    proof (rule ccontr)
      assume "\<not> ?thesis"
      then have "\<exists>stop. snd (getMediaPlayerStates_body env player acc) = Inl stop"
        using body_stops[of env player acc] by blast
      then show False using Cons.prems(1) by (auto simp: snd_bind_run)
    qed
    define acc' where "acc' = (if R player PLAYING then map_assign player PLAYING acc
                  else if R player PAUSED then map_assign player PAUSED acc
                  else if R player STOPPED then map_assign player STOPPED acc
                  else acc)"
    have body: "snd (getMediaPlayerStates_body env player acc) = Inr acc'"
      unfolding acc'_def using ok by (intro step) simp_all
    have rest: "snd (getMediaPlayerStates_loop env players acc') = Inr result"
      using Cons.prems(1) body by (simp add: snd_bind_run)
    have v: "valid_map acc'" unfolding acc'_def using Cons.prems(2) by (simp add: valid_map_assign)
    have acc'_set: "(p, s) \<in> set acc' \<longleftrightarrow>
                      (p = player \<and> R p s) \<or>
                      ((p, s) \<in> set acc \<and> (p \<noteq> player \<or> (\<forall>s'. \<not> R p s')))" for p s
    proof (cases "\<exists>s0. R player s0")
      case True
      then obtain s0 where s0: "R player s0" by blast
      have "acc' = map_assign player s0 acc"
      proof (cases s0)
        case STOPPED
        then have "\<not> R player PLAYING" "\<not> R player PAUSED" using s0 uniq by blast+
        then show ?thesis using s0 STOPPED unfolding acc'_def by simp
      next
        case PAUSED
        then have "\<not> R player PLAYING" using s0 uniq by blast
        then show ?thesis using s0 PAUSED unfolding acc'_def by simp
      next
        case PLAYING
        then show ?thesis using s0 unfolding acc'_def by simp
      qed
      then have mem: "(p, s) \<in> set acc' \<longleftrightarrow> (p = player \<and> s = s0) \<or> ((p, s) \<in> set acc \<and> p \<noteq> player)"
        using Cons.prems(2) by (auto simp: set_map_assign)
      have "R player s \<longleftrightarrow> s = s0" using s0 uniq[OF s0] by blast
      moreover have "\<not> (\<forall>s'. \<not> R player s')" using s0 by blast
      ultimately show ?thesis unfolding mem by blast
    next
      case False
      then have "acc' = acc" unfolding acc'_def by simp
      then show ?thesis using False by blast
    qed
    have IH: "valid_map result \<and>
           (\<forall>p s. (p, s) \<in> set result \<longleftrightarrow>
                    (p \<in> set players \<and> R p s) \<or>
                    ((p, s) \<in> set acc' \<and> (p \<notin> set players \<or> (\<forall>s'. \<not> R p s'))))"
      by (rule Cons.IH[OF rest v])
    show ?case
    proof (intro conjI allI)
      show "valid_map result" using IH by simp
    next
      fix p s
      have "(p, s) \<in> set result \<longleftrightarrow>
                    (p \<in> set players \<and> R p s) \<or>
                    ((p, s) \<in> set acc' \<and> (p \<notin> set players \<or> (\<forall>s'. \<not> R p s')))"
        using IH by blast
      then have "(p, s) \<in> set result \<longleftrightarrow>
                    (p \<in> set players \<and> R p s) \<or>
                    (((p = player \<and> R p s) \<or>
                      ((p, s) \<in> set acc \<and> (p \<noteq> player \<or> (\<forall>s'. \<not> R p s')))) \<and>
                     (p \<notin> set players \<or> (\<forall>s'. \<not> R p s')))"
        unfolding acc'_set[of p s] .
      moreover have "R p s \<Longrightarrow> \<not> (\<forall>s'. \<not> R p s')" by blast
      ultimately show "(p, s) \<in> set result \<longleftrightarrow>
                    (p \<in> set (player # players) \<and> R p s) \<or>
                    ((p, s) \<in> set acc \<and> (p \<notin> set (player # players) \<or> (\<forall>s'. \<not> R p s')))"
        by (cases "p = player"; cases "p \<in> set players"; cases "R p s"; cases "\<forall>s'. \<not> R p s'")
           simp_all
    qed
  qed
  then show ?thesis unfolding R_def .
qed

lemma discovery_events:
  "e \<in> set (fst (getMediaPlayerInstances env)) \<Longrightarrow>
     e = ProxyCreate registrar \<or> e = CallSync registrar ''ListNames'' [] \<or> (\<exists>t. e = Stderr t)"
  by (auto simp: getMediaPlayerInstances_def Let_def fst_bind_emit
           split: creation.splits sum.splits list.splits)

lemma body_events:
  "e \<in> set (fst (getMediaPlayerStates_body env player acc)) \<Longrightarrow>
     (\<exists>p. e = ProxyCreate (properties_proxy p)) \<or> (\<exists>p. e = state_query p) \<or> (\<exists>t. e = Stderr t)"
  by (auto simp: getMediaPlayerStates_body_def Let_def fst_bind_emit
           split: creation.splits if_splits sum.splits list.splits)

lemma loop_events:
  "e \<in> set (fst (getMediaPlayerStates_loop env players acc)) \<Longrightarrow>
     (\<exists>p. e = ProxyCreate (properties_proxy p)) \<or> (\<exists>p. e = state_query p) \<or> (\<exists>t. e = Stderr t)"
proof (induction players arbitrary: acc)
  case Nil
  then show ?case by simp
next
  case (Cons player players)
  from Cons.prems have
    "e \<in> set (fst (getMediaPlayerStates_body env player acc)) \<or>
     (\<exists>acc'. e \<in> set (fst (getMediaPlayerStates_loop env players acc')))"
    using set_fst_bind_run[of "getMediaPlayerStates_body env player acc"
                          "\<lambda>result. getMediaPlayerStates_loop env players result"]
    by auto
  then show ?case using body_events[of e env player acc] Cons.IH by blast
qed


lemma discovery_run:
  assumes "create_sync env registrar = Made"
    and "call_sync env registrar ''ListNames'' [] = Inr (names # others)"
  shows "getMediaPlayerInstances env =
           ([ProxyCreate registrar, CallSync registrar ''ListNames'' []], Inr (discovered env names))"
  using assms by (simp add: getMediaPlayerInstances_def bind_run_def emit_def Let_def)

lemma aggregation_run:
  assumes "\<forall>p \<in> set players.
             create_sync env (properties_proxy p) = Made \<and> state_reply env p \<noteq> Inr []"
  shows "\<exists>lines result. (\<forall>p. \<forall>e \<in> set (lines p). \<exists>t. e = Stderr t) \<and>
           getMediaPlayerStates env players =
             (concat (map (\<lambda>p. ProxyCreate (properties_proxy p) # state_query p # lines p) players),
              Inr result)"
proof -
  obtain lines where l: "\<forall>p. \<forall>e \<in> set (lines p). \<exists>t. e = Stderr t"
    and t: "\<forall>acc. fst (getMediaPlayerStates_loop env players acc) =
              concat (map (\<lambda>p. ProxyCreate (properties_proxy p) # state_query p # lines p) players)"
    using loop_trace[OF assms] by blast
  obtain result where r: "snd (getMediaPlayerStates_loop env players []) = Inr result"
    using loop_returns[OF assms] by blast
  have "getMediaPlayerStates env players =
          (concat (map (\<lambda>p. ProxyCreate (properties_proxy p) # state_query p # lines p) players),
           Inr result)"
    unfolding getMediaPlayerStates_def using t r by (simp add: prod_eq_iff)
  then show ?thesis using l by blast
qed

section \<open>Runs with a command that is not known\<close>

lemma main_unknown:
  assumes "method \<notin> {''play'', ''pause'', ''playpause'', ''stop'', ''next'', ''prev''}"
  shows "main argv0 [method] env =
           (if \<not> locale_ok env then ([], Abort)
            else case get_sync env of
              Throws what \<Rightarrow> ([Connect], Abort)
            | Null \<Rightarrow> ([Connect, Stderr ''The user's session bus is not available.''], Exit 1)
            | Made \<Rightarrow>
               (case getMediaPlayerInstances env of
                  (evs1, Inl stop) \<Rightarrow> (Connect # evs1, stop)
                | (evs1, Inr players) \<Rightarrow>
                    if players = [] then (Connect # evs1 @ [Stdout ''no player found.''], Exit 0)
                    else case getMediaPlayerStates env players of
                      (evs2, Inl stop) \<Rightarrow> (Connect # evs1 @ evs2, stop)
                    | (evs2, Inr states) \<Rightarrow>
                        (Connect # evs1 @ evs2 @ Stderr (''Unknown method '' @ method) # usage argv0,
                         Exit 127)))"
proof -
  have unknown: "evalActions argv0 method states =
                   (Stderr (''Unknown method '' @ method) # usage argv0, Inl (Exit 127))" for states
    by (rule evalActions_unknown[OF assms])
  show ?thesis
    by (simp add: main_def main_body_def bind_run_def emit_def eval_args_def unknown
             split: prod.splits sum.splits creation.splits)
qed

lemma main_unknown_events:
  assumes "method \<notin> {''play'', ''pause'', ''playpause'', ''stop'', ''next'', ''prev''}"
    and "e \<in> set (fst (main argv0 [method] env))"
  shows "e = Connect \<or> (\<exists>t. e = Stderr t) \<or> (\<exists>t. e = Stdout t) \<or>
         e = ProxyCreate registrar \<or> e = CallSync registrar ''ListNames'' [] \<or>
         (\<exists>p. e = ProxyCreate (properties_proxy p)) \<or> (\<exists>p. e = state_query p)"
proof -
  obtain evs1 r1 where d: "getMediaPlayerInstances env = (evs1, r1)"
    by (cases "getMediaPlayerInstances env")
  have a: "fst (getMediaPlayerStates env players) = evs2"
    if "getMediaPlayerStates env players = (evs2, r2)" for players evs2 r2
    using that by simp
  have "e = Connect \<or> (\<exists>t. e = Stderr t) \<or> (\<exists>t. e = Stdout t) \<or>
        e \<in> set evs1 \<or> (\<exists>players. e \<in> set (fst (getMediaPlayerStates env players)))"
    using assms(2) unfolding main_unknown[OF assms(1)] d
    by (auto simp: usage_def dest: a split: if_splits prod.splits sum.splits creation.splits)
  moreover have "fst (getMediaPlayerInstances env) = evs1" using d by simp
  ultimately show ?thesis
    using discovery_events[of e env] loop_events[of e env]
    unfolding getMediaPlayerStates_def by blast
qed

section \<open>Runs in the sample environments\<close>

lemmas run_defs = main_def main_body_def bind_run_def emit_def eval_args_def
  getMediaPlayerInstances_def prefix_def getMediaPlayerStates_def getMediaPlayerStates_body_def
  evalActions_def findPlayer_def usage_def execMediaPlayerMethod_def got_an_error_def
  proxy_failed_def Let_def

lemmas env_defs = env_plain_def env_registrar_error_def env_no_player_def env_one_player_def
  env_five_players_def env_fullwidth_def env_empty_reply_def fullwidth_Playing_def
  narrow_head_def

lemma five_aggregated:
  "snd (getMediaPlayerStates env_five_players five_players)
     = Inr [(''org.mpris.MediaPlayer2.mpv'', PLAYING), (''org.mpris.MediaPlayer2.rhythmbox'', PAUSED)]"
  by (simp add: getMediaPlayerStates_def getMediaPlayerStates_body_def bind_run_def emit_def
        env_defs Let_def)

section \<open>Discovery\<close>

text \<open>
  Claim C1, as stated, fails: when the \<^verbatim>\<open>ListNames\<close> call throws, the error is
  caught and printed, discovery returns the empty set, and the program prints
  \<^verbatim>\<open>no player found.\<close> and ends with code 0, as it does when the registrar answers
  and no player is registered.
\<close>

theorem registrar_error_counterexample:
  "call_sync env_registrar_error registrar ''ListNames'' [] = Inl ''Timeout was reached'' \<and>
   main ''mediaplayerctl'' [''play''] env_registrar_error =
     ([Connect, ProxyCreate registrar, CallSync registrar ''ListNames'' [],
       Stderr (''Got an error: '' @ [CHR 0x27] @ ''Timeout was reached'' @ [CHR 0x27] @ ''.''),
       Stdout ''no player found.''], Exit 0)"
  by (simp add: run_defs env_defs)

text \<open>
  Claim C1, amended. In every environment where the locale, the connection and the
  registrar proxy are made and the \<^verbatim>\<open>ListNames\<close> call throws a \<^verbatim>\<open>Glib::Error\<close>,
  a run with one argument does exactly this: it connects, makes the registrar proxy,
  calls \<^verbatim>\<open>ListNames\<close>, prints the error to the error stream, prints
  \<^verbatim>\<open>no player found.\<close> and ends with code 0. No state is queried and no method is
  sent.
\<close>

theorem registrar_error_not_fatal:
  assumes "locale_ok env" "get_sync env = Made" "create_sync env registrar = Made"
    and "call_sync env registrar ''ListNames'' [] = Inl what"
  shows "main argv0 [method] env =
           ([Connect, ProxyCreate registrar, CallSync registrar ''ListNames'' [],
             Stderr (got_an_error what), Stdout ''no player found.''], Exit 0)"
  using assms
  by (simp add: main_def main_body_def bind_run_def emit_def eval_args_def
        getMediaPlayerInstances_def Let_def)

theorem registrar_error_not_fatal_witness:
  "locale_ok env_registrar_error \<and> get_sync env_registrar_error = Made \<and>
   create_sync env_registrar_error registrar = Made \<and>
   call_sync env_registrar_error registrar ''ListNames'' [] = Inl ''Timeout was reached'' \<and>
   main ''mediaplayerctl'' [''stop''] env_registrar_error =
     ([Connect, ProxyCreate registrar, CallSync registrar ''ListNames'' [],
       Stderr (got_an_error ''Timeout was reached''), Stdout ''no player found.''], Exit 0)"
  using registrar_error_not_fatal [of env_registrar_error "''Timeout was reached''"
          "''mediaplayerctl''" "''stop''"]
  by (simp add: env_defs)

section \<open>Action resolution\<close>

text \<open>
  Claim C2. For every state map, \<^verbatim>\<open>pause\<close> resolves to a plan (no output, no
  exit) that is a valid map; the plan is empty when no entry is \<open>PLAYING\<close>; when some
  entry is \<open>PLAYING\<close>, the keys of the plan are exactly the players in state
  \<open>PLAYING\<close> and every entry carries the method \<^verbatim>\<open>Pause\<close>.
\<close>

theorem pause_plan:
  "\<exists>plan. evalActions pn ''pause'' states = ([], Inr plan) \<and> valid_map plan \<and>
     (PLAYING \<notin> snd ` set states \<longrightarrow> plan = []) \<and>
     (PLAYING \<in> snd ` set states \<longrightarrow>
        fst ` set plan = players_in states PLAYING \<and> (\<forall>e \<in> set plan. snd e = ''Pause''))"
proof -
  let ?plan = "fold (\<lambda>player result. map_assign player ''Pause'' result) (findPlayer states [PLAYING]) []"
  have 1: "valid_map ?plan" by (rule fold_assign_valid) (simp add: valid_map_def)
  have 2: "set ?plan = (\<lambda>p. (p, ''Pause'')) ` players_in states PLAYING"
    by (simp add: fold_assign_plan set_findPlayer)
  have 3: "?plan = []" if "PLAYING \<notin> snd ` set states"
    using that findPlayer_empty_iff[of states "[PLAYING]"] by simp
  have 4: "fst ` set ?plan = players_in states PLAYING" unfolding 2 by force
  have 5: "\<forall>e \<in> set ?plan. snd e = ''Pause''" unfolding 2 by simp
  show ?thesis using evalActions_pause 1 3 4 5 by blast
qed

theorem pause_plan_witness:
  "PLAYING \<in> snd ` set [(''org.mpris.MediaPlayer2.mpv'', PLAYING), (''org.mpris.MediaPlayer2.vlc'', PAUSED)]
   \<and> evalActions ''mediaplayerctl'' ''pause''
         [(''org.mpris.MediaPlayer2.mpv'', PLAYING), (''org.mpris.MediaPlayer2.vlc'', PAUSED)]
       = ([], Inr [(''org.mpris.MediaPlayer2.mpv'', ''Pause'')])
   \<and> PLAYING \<notin> snd ` set [(''org.mpris.MediaPlayer2.vlc'', STOPPED)]
   \<and> evalActions ''mediaplayerctl'' ''pause'' [(''org.mpris.MediaPlayer2.vlc'', STOPPED)] = ([], Inr [])"
  using pause_plan [of "''mediaplayerctl''"
          "[(''org.mpris.MediaPlayer2.mpv'', PLAYING), (''org.mpris.MediaPlayer2.vlc'', PAUSED)]"]
        pause_plan [of "''mediaplayerctl''" "[(''org.mpris.MediaPlayer2.vlc'', STOPPED)]"]
  by (simp add: evalActions_def findPlayer_def)

text \<open>
  Claim C3. For every state map, \<^verbatim>\<open>play\<close> resolves to a plan of at most one
  entry: the empty plan when some player is \<open>PLAYING\<close>; otherwise one entry with
  method \<^verbatim>\<open>Play\<close> whose key is a \<open>PAUSED\<close> player if there is one, else a
  \<open>STOPPED\<close> player if there is one; and the empty plan when there is neither a
  \<open>PAUSED\<close> nor a \<open>STOPPED\<close> player.
\<close>

theorem play_plan:
  "\<exists>plan. evalActions pn ''play'' states = ([], Inr plan) \<and> length plan \<le> 1 \<and>
     (PLAYING \<in> snd ` set states \<longrightarrow> plan = []) \<and>
     (PLAYING \<notin> snd ` set states \<and> PAUSED \<in> snd ` set states \<longrightarrow>
        (\<exists>p \<in> players_in states PAUSED. plan = [(p, ''Play'')])) \<and>
     (PLAYING \<notin> snd ` set states \<and> PAUSED \<notin> snd ` set states \<and> STOPPED \<in> snd ` set states \<longrightarrow>
        (\<exists>p \<in> players_in states STOPPED. plan = [(p, ''Play'')])) \<and>
     (PAUSED \<notin> snd ` set states \<and> STOPPED \<notin> snd ` set states \<longrightarrow> plan = [])"
  unfolding evalActions_play
  by (simp add: findPlayer_single_empty hd_findPlayer_single)

theorem play_plan_witness:
  "PLAYING \<in> snd ` set [(mpv, PLAYING), (vlc, PAUSED)] \<and>
   evalActions ''mediaplayerctl'' ''play'' [(mpv, PLAYING), (vlc, PAUSED)] = ([], Inr []) \<and>
   PLAYING \<notin> snd ` set [(mpv, STOPPED), (vlc, PAUSED)] \<and>
   PAUSED \<in> snd ` set [(mpv, STOPPED), (vlc, PAUSED)] \<and>
   evalActions ''mediaplayerctl'' ''play'' [(mpv, STOPPED), (vlc, PAUSED)]
     = ([], Inr [(vlc, ''Play'')]) \<and>
   PLAYING \<notin> snd ` set [(mpv, STOPPED), (vlc, STOPPED)] \<and>
   PAUSED \<notin> snd ` set [(mpv, STOPPED), (vlc, STOPPED)] \<and>
   STOPPED \<in> snd ` set [(mpv, STOPPED), (vlc, STOPPED)] \<and>
   evalActions ''mediaplayerctl'' ''play'' [(mpv, STOPPED), (vlc, STOPPED)]
     = ([], Inr [(mpv, ''Play'')]) \<and>
   PAUSED \<notin> snd ` set ([] :: PlayerStates) \<and> STOPPED \<notin> snd ` set ([] :: PlayerStates) \<and>
   evalActions ''mediaplayerctl'' ''play'' [] = ([], Inr [])"
  using play_plan [of "''mediaplayerctl''" "[(mpv, PLAYING), (vlc, PAUSED)]"]
        play_plan [of "''mediaplayerctl''" "[(mpv, STOPPED), (vlc, PAUSED)]"]
        play_plan [of "''mediaplayerctl''" "[(mpv, STOPPED), (vlc, STOPPED)]"]
        play_plan [of "''mediaplayerctl''" "[]"]
  by (simp add: evalActions_def findPlayer_def)

text \<open>
  Claim C4. For every valid state map, \<^verbatim>\<open>stop\<close> resolves to a plan whose keys are
  exactly the players in state \<open>PLAYING\<close> or \<open>PAUSED\<close>, every entry with the method
  \<^verbatim>\<open>Stop\<close>; a player that is \<open>STOPPED\<close>, and a player that is not a key of the
  state map, is not a key of the plan.
\<close>

theorem stop_plan:
  assumes "valid_map states"
  shows "\<exists>plan. evalActions pn ''stop'' states = ([], Inr plan) \<and> valid_map plan \<and>
     fst ` set plan = players_in states PLAYING \<union> players_in states PAUSED \<and>
     (\<forall>e \<in> set plan. snd e = ''Stop'') \<and>
     (\<forall>p. (p, STOPPED) \<in> set states \<or> p \<notin> fst ` set states \<longrightarrow> p \<notin> fst ` set plan)"
proof -
  let ?plan = "fold (\<lambda>player result. map_assign player ''Stop'' result)
                 (findPlayer states [PLAYING, PAUSED]) []"
  have 1: "valid_map ?plan" by (rule fold_assign_valid) (simp add: valid_map_def)
  have 2: "set ?plan = (\<lambda>p. (p, ''Stop'')) ` (players_in states PLAYING \<union> players_in states PAUSED)"
    unfolding fold_assign_plan set_findPlayer by (rule arg_cong[where f="image _"]) auto
  have 3: "fst ` set ?plan = players_in states PLAYING \<union> players_in states PAUSED"
    unfolding 2 by force
  have 4: "\<forall>e \<in> set ?plan. snd e = ''Stop''" unfolding 2 by simp
  have 5: "p \<notin> fst ` set ?plan" if "(p, STOPPED) \<in> set states \<or> p \<notin> fst ` set states" for p
  proof
    assume "p \<in> fst ` set ?plan"
    then have "(p, PLAYING) \<in> set states \<or> (p, PAUSED) \<in> set states" unfolding 3 by simp
    then show False using that valid_map_unique[OF assms, of p] by force
  qed
  show ?thesis using evalActions_stop 1 3 4 5 by blast
qed

theorem stop_plan_witness:
  "valid_map [(firefox, STOPPED), (mpv, PLAYING), (vlc, PAUSED)] \<and>
   evalActions ''mediaplayerctl'' ''stop'' [(firefox, STOPPED), (mpv, PLAYING), (vlc, PAUSED)]
     = ([], Inr [(mpv, ''Stop''), (vlc, ''Stop'')]) \<and>
   firefox \<notin> fst ` set [(mpv, ''Stop''), (vlc, ''Stop'')]"
  using stop_plan [of "[(firefox, STOPPED), (mpv, PLAYING), (vlc, PAUSED)]" "''mediaplayerctl''"]
  by (simp add: evalActions_def findPlayer_def valid_map_def)

text \<open>
  Claim C5. For every state map, \<^verbatim>\<open>playpause\<close> resolves as \<^verbatim>\<open>pause\<close> does when
  some player is \<open>PLAYING\<close>, and as \<^verbatim>\<open>play\<close> does otherwise.
\<close>

theorem playpause_plan:
  "evalActions pn ''playpause'' states =
     (if PLAYING \<in> snd ` set states then evalActions pn ''pause'' states
      else evalActions pn ''play'' states)"
  unfolding evalActions_playpause by (simp add: findPlayer_single_empty)

theorem playpause_plan_witness:
  "PLAYING \<in> snd ` set [(mpv, PLAYING), (vlc, PAUSED)] \<and>
   evalActions ''mediaplayerctl'' ''playpause'' [(mpv, PLAYING), (vlc, PAUSED)]
     = evalActions ''mediaplayerctl'' ''pause'' [(mpv, PLAYING), (vlc, PAUSED)] \<and>
   evalActions ''mediaplayerctl'' ''playpause'' [(mpv, PLAYING), (vlc, PAUSED)]
     = ([], Inr [(mpv, ''Pause'')]) \<and>
   PLAYING \<notin> snd ` set [(mpv, STOPPED), (vlc, PAUSED)] \<and>
   evalActions ''mediaplayerctl'' ''playpause'' [(mpv, STOPPED), (vlc, PAUSED)]
     = evalActions ''mediaplayerctl'' ''play'' [(mpv, STOPPED), (vlc, PAUSED)] \<and>
   evalActions ''mediaplayerctl'' ''playpause'' [(mpv, STOPPED), (vlc, PAUSED)]
     = ([], Inr [(vlc, ''Play'')])"
  using playpause_plan [of "''mediaplayerctl''" "[(mpv, PLAYING), (vlc, PAUSED)]"]
        playpause_plan [of "''mediaplayerctl''" "[(mpv, STOPPED), (vlc, PAUSED)]"]
  by (simp add: evalActions_def findPlayer_def)

text \<open>
  Claim C6. For every state map: when some player is \<open>PLAYING\<close>, \<^verbatim>\<open>next\<close>
  resolves to a plan of exactly one entry, a \<open>PLAYING\<close> player with the method
  \<^verbatim>\<open>Next\<close>, and \<^verbatim>\<open>prev\<close> to the same player with the method
  \<^verbatim>\<open>Previous\<close>; when no player is \<open>PLAYING\<close>, both resolve to the empty plan.
  The pick is a function of the state map.
\<close>

theorem next_prev_plan:
  "(PLAYING \<in> snd ` set states \<longrightarrow>
      (\<exists>p \<in> players_in states PLAYING.
          evalActions pn ''next'' states = ([], Inr [(p, ''Next'')]) \<and>
          evalActions pn ''prev'' states = ([], Inr [(p, ''Previous'')]))) \<and>
   (PLAYING \<notin> snd ` set states \<longrightarrow>
      evalActions pn ''next'' states = ([], Inr []) \<and>
      evalActions pn ''prev'' states = ([], Inr []))"
  unfolding evalActions_next evalActions_prev
  by (simp add: findPlayer_single_empty hd_findPlayer_single)

theorem next_prev_plan_witness:
  "PLAYING \<in> snd ` set [(firefox, PAUSED), (mpv, PLAYING), (vlc, PLAYING)] \<and>
   evalActions ''mediaplayerctl'' ''next'' [(firefox, PAUSED), (mpv, PLAYING), (vlc, PLAYING)]
     = ([], Inr [(mpv, ''Next'')]) \<and>
   evalActions ''mediaplayerctl'' ''prev'' [(firefox, PAUSED), (mpv, PLAYING), (vlc, PLAYING)]
     = ([], Inr [(mpv, ''Previous'')]) \<and>
   PLAYING \<notin> snd ` set [(mpv, STOPPED), (vlc, PAUSED)] \<and>
   evalActions ''mediaplayerctl'' ''next'' [(mpv, STOPPED), (vlc, PAUSED)] = ([], Inr []) \<and>
   evalActions ''mediaplayerctl'' ''prev'' [(mpv, STOPPED), (vlc, PAUSED)] = ([], Inr [])"
  using next_prev_plan [of "[(firefox, PAUSED), (mpv, PLAYING), (vlc, PLAYING)]" "''mediaplayerctl''"]
        next_prev_plan [of "[(mpv, STOPPED), (vlc, PAUSED)]" "''mediaplayerctl''"]
  by (simp add: evalActions_def findPlayer_def)

text \<open>
  Claim C10. The one player that \<^verbatim>\<open>play\<close> and \<^verbatim>\<open>playpause\<close> pick when nothing
  is \<open>PLAYING\<close> is the smallest, in the lexicographic order of the identifiers, of the
  \<open>PAUSED\<close> players, or of the \<open>STOPPED\<close> players when none is \<open>PAUSED\<close>; the one
  player that \<^verbatim>\<open>next\<close> and \<^verbatim>\<open>prev\<close> pick is the smallest of the \<open>PLAYING\<close>
  players.
\<close>

theorem pick_smallest:
  "(PLAYING \<notin> snd ` set states \<and> PAUSED \<in> snd ` set states \<longrightarrow>
      (\<exists>p \<in> players_in states PAUSED. (\<forall>q \<in> players_in states PAUSED. p \<le> q) \<and>
         evalActions pn ''play'' states = ([], Inr [(p, ''Play'')]) \<and>
         evalActions pn ''playpause'' states = ([], Inr [(p, ''Play'')]))) \<and>
   (PLAYING \<notin> snd ` set states \<and> PAUSED \<notin> snd ` set states \<and> STOPPED \<in> snd ` set states \<longrightarrow>
      (\<exists>p \<in> players_in states STOPPED. (\<forall>q \<in> players_in states STOPPED. p \<le> q) \<and>
         evalActions pn ''play'' states = ([], Inr [(p, ''Play'')]) \<and>
         evalActions pn ''playpause'' states = ([], Inr [(p, ''Play'')]))) \<and>
   (PLAYING \<in> snd ` set states \<longrightarrow>
      (\<exists>p \<in> players_in states PLAYING. (\<forall>q \<in> players_in states PLAYING. p \<le> q) \<and>
         evalActions pn ''next'' states = ([], Inr [(p, ''Next'')]) \<and>
         evalActions pn ''prev'' states = ([], Inr [(p, ''Previous'')])))"
proof -
  have pick: "hd (findPlayer states [s]) \<in> players_in states s \<and>
              (\<forall>q \<in> players_in states s. hd (findPlayer states [s]) \<le> q)"
    if "s \<in> snd ` set states" for s
    using hd_findPlayer_single[OF that] hd_findPlayer_single_least by simp
  have "\<exists>p \<in> players_in states PAUSED. (\<forall>q \<in> players_in states PAUSED. p \<le> q) \<and>
         evalActions pn ''play'' states = ([], Inr [(p, ''Play'')]) \<and>
         evalActions pn ''playpause'' states = ([], Inr [(p, ''Play'')])"
    if "PLAYING \<notin> snd ` set states" "PAUSED \<in> snd ` set states"
    unfolding evalActions_playpause evalActions_play
    using that pick[of PAUSED] by (intro bexI[of _ "hd (findPlayer states [PAUSED])"])
      (simp_all add: findPlayer_single_empty)
  moreover have "\<exists>p \<in> players_in states STOPPED. (\<forall>q \<in> players_in states STOPPED. p \<le> q) \<and>
         evalActions pn ''play'' states = ([], Inr [(p, ''Play'')]) \<and>
         evalActions pn ''playpause'' states = ([], Inr [(p, ''Play'')])"
    if "PLAYING \<notin> snd ` set states" "PAUSED \<notin> snd ` set states" "STOPPED \<in> snd ` set states"
    unfolding evalActions_playpause evalActions_play
    using that pick[of STOPPED] by (intro bexI[of _ "hd (findPlayer states [STOPPED])"])
      (simp_all add: findPlayer_single_empty)
  moreover have "\<exists>p \<in> players_in states PLAYING. (\<forall>q \<in> players_in states PLAYING. p \<le> q) \<and>
         evalActions pn ''next'' states = ([], Inr [(p, ''Next'')]) \<and>
         evalActions pn ''prev'' states = ([], Inr [(p, ''Previous'')])"
    if "PLAYING \<in> snd ` set states"
    unfolding evalActions_next evalActions_prev
    using that pick[of PLAYING] by (intro bexI[of _ "hd (findPlayer states [PLAYING])"])
      (simp_all add: findPlayer_single_empty)
  ultimately show ?thesis by blast
qed

theorem pick_smallest_witness:
  "PLAYING \<notin> snd ` set [(VLC, PAUSED), (firefox, STOPPED), (mpv, PAUSED)] \<and>
   PAUSED \<in> snd ` set [(VLC, PAUSED), (firefox, STOPPED), (mpv, PAUSED)] \<and>
   VLC \<le> mpv \<and>
   evalActions ''mediaplayerctl'' ''play'' [(VLC, PAUSED), (firefox, STOPPED), (mpv, PAUSED)]
     = ([], Inr [(VLC, ''Play'')]) \<and>
   evalActions ''mediaplayerctl'' ''playpause'' [(VLC, PAUSED), (firefox, STOPPED), (mpv, PAUSED)]
     = ([], Inr [(VLC, ''Play'')]) \<and>
   PLAYING \<notin> snd ` set [(mpv, STOPPED), (vlc, STOPPED)] \<and>
   PAUSED \<notin> snd ` set [(mpv, STOPPED), (vlc, STOPPED)] \<and>
   STOPPED \<in> snd ` set [(mpv, STOPPED), (vlc, STOPPED)] \<and>
   mpv \<le> vlc \<and>
   evalActions ''mediaplayerctl'' ''play'' [(mpv, STOPPED), (vlc, STOPPED)]
     = ([], Inr [(mpv, ''Play'')]) \<and>
   evalActions ''mediaplayerctl'' ''playpause'' [(mpv, STOPPED), (vlc, STOPPED)]
     = ([], Inr [(mpv, ''Play'')]) \<and>
   PLAYING \<in> snd ` set [(firefox, PLAYING), (mpv, PAUSED), (vlc, PLAYING)] \<and>
   firefox \<le> vlc \<and>
   evalActions ''mediaplayerctl'' ''next'' [(firefox, PLAYING), (mpv, PAUSED), (vlc, PLAYING)]
     = ([], Inr [(firefox, ''Next'')]) \<and>
   evalActions ''mediaplayerctl'' ''prev'' [(firefox, PLAYING), (mpv, PAUSED), (vlc, PLAYING)]
     = ([], Inr [(firefox, ''Previous'')])"
  using pick_smallest [of "[(VLC, PAUSED), (firefox, STOPPED), (mpv, PAUSED)]" "''mediaplayerctl''"]
        pick_smallest [of "[(mpv, STOPPED), (vlc, STOPPED)]" "''mediaplayerctl''"]
        pick_smallest [of "[(firefox, PLAYING), (mpv, PAUSED), (vlc, PLAYING)]" "''mediaplayerctl''"]
  by (simp add: evalActions_def findPlayer_def)

section \<open>State aggregation\<close>




text \<open>
  Claim C9. Every key of the state map that aggregation returns for a player set is in
  that set, and every key of the plan that resolution returns for a state map, for any
  command, is a key of that state map.
\<close>

theorem no_new_players:
  "(snd (getMediaPlayerStates env players) = Inr states \<longrightarrow> fst ` set states \<subseteq> set players) \<and>
   (snd (evalActions pn method states') = Inr plan \<longrightarrow> fst ` set plan \<subseteq> fst ` set states')"
proof (intro conjI impI)
  assume "snd (getMediaPlayerStates env players) = Inr states"
  then have r: "snd (getMediaPlayerStates_loop env players []) = Inr states"
    unfolding getMediaPlayerStates_def .
  have v: "valid_map ([] :: PlayerStates)" by (simp add: valid_map_def)
  have "\<forall>p s. (p, s) \<in> set states \<longleftrightarrow> p \<in> set players \<and> reports env p s"
    using loop_result[OF r v] by simp
  then have "p \<in> set players" if "(p, s) \<in> set states" for p s
    using that by blast
  then show "fst ` set states \<subseteq> set players" by force
next
  assume "snd (evalActions pn method states') = Inr plan"
  then have "evalActions pn method states' = (fst (evalActions pn method states'), Inr plan)"
    by (simp add: prod_eq_iff)
  then show "fst ` set plan \<subseteq> fst ` set states'" by (rule evalActions_keys)
qed

theorem no_new_players_witness:
  "snd (getMediaPlayerStates env_five_players five_players)
     = Inr [(mpv, PLAYING), (''org.mpris.MediaPlayer2.rhythmbox'', PAUSED)] \<and>
   fst ` set [(mpv, PLAYING), (''org.mpris.MediaPlayer2.rhythmbox'', PAUSED)] \<subseteq> set five_players \<and>
   snd (evalActions ''mediaplayerctl'' ''stop''
          [(mpv, PLAYING), (''org.mpris.MediaPlayer2.rhythmbox'', PAUSED)])
     = Inr [(mpv, ''Stop''), (''org.mpris.MediaPlayer2.rhythmbox'', ''Stop'')] \<and>
   fst ` set [(mpv, ''Stop''), (''org.mpris.MediaPlayer2.rhythmbox'', ''Stop'')]
     \<subseteq> fst ` set [(mpv, PLAYING), (''org.mpris.MediaPlayer2.rhythmbox'', PAUSED)]"
proof -
  have a: "snd (getMediaPlayerStates env_five_players five_players)
             = Inr [(mpv, PLAYING), (''org.mpris.MediaPlayer2.rhythmbox'', PAUSED)]"
    by (rule five_aggregated)
  have b: "snd (evalActions ''mediaplayerctl'' ''stop''
                  [(mpv, PLAYING), (''org.mpris.MediaPlayer2.rhythmbox'', PAUSED)])
             = Inr [(mpv, ''Stop''), (''org.mpris.MediaPlayer2.rhythmbox'', ''Stop'')]"
    by (simp add: evalActions_def findPlayer_def)
  note t = no_new_players [of env_five_players five_players
        "[(mpv, PLAYING), (''org.mpris.MediaPlayer2.rhythmbox'', PAUSED)]"
        "''mediaplayerctl''" "''stop''"
        "[(mpv, PLAYING), (''org.mpris.MediaPlayer2.rhythmbox'', PAUSED)]"
        "[(mpv, ''Stop''), (''org.mpris.MediaPlayer2.rhythmbox'', ''Stop'')]"]
  have c: "fst ` set [(mpv, PLAYING), (''org.mpris.MediaPlayer2.rhythmbox'', PAUSED)]
             \<subseteq> set five_players"
    by (rule t [THEN conjunct1, THEN mp, OF a])
  have d: "fst ` set [(mpv, ''Stop''), (''org.mpris.MediaPlayer2.rhythmbox'', ''Stop'')]
     \<subseteq> fst ` set [(mpv, PLAYING), (''org.mpris.MediaPlayer2.rhythmbox'', PAUSED)]"
    by (rule t [THEN conjunct2, THEN mp, OF b])
  show ?thesis using a c b d by (intro conjI)
qed

section \<open>Unknown commands\<close>

text \<open>
  Claim C7, as stated, fails: a command that is not one of the six is rejected by
  \<^verbatim>\<open>evalActions\<close>, which runs after discovery and aggregation. With a player on the
  bus, the run connects, lists the names and queries the player before it prints the
  usage text and ends with code 127; with no player on the bus, it prints
  \<^verbatim>\<open>no player found.\<close> and ends with code 0.
\<close>

theorem unknown_command_counterexample:
  "main ''mediaplayerctl'' [''rewind''] env_one_player =
     ([Connect, ProxyCreate registrar, CallSync registrar ''ListNames'' [],
       ProxyCreate (properties_proxy vlc), state_query vlc,
       Stderr ''Unknown method rewind'',
       Stdout ''usage: mediaplayerctl <play|pause|playpause|stop|next|prev>''], Exit 127) \<and>
   main ''mediaplayerctl'' [''rewind''] env_no_player =
     ([Connect, ProxyCreate registrar, CallSync registrar ''ListNames'' [],
       Stdout ''no player found.''], Exit 0)"
  by (simp add: run_defs env_defs)

text \<open>
  Claim C7, amended. For every run whose single argument is not one of the six commands,
  in which the locale, the connection and the registrar proxy are made and
  \<^verbatim>\<open>ListNames\<close> is answered by a reply with a child:
  \<^item> when no name of the reply is kept as a player, the run is: connect, make the
    registrar proxy, call \<^verbatim>\<open>ListNames\<close>, print \<^verbatim>\<open>no player found.\<close>, end with
    code 0; no usage text is printed;
  \<^item> when some name is kept, and for every discovered player the property proxy is made
    and the reply has a child, the run is: connect, make the registrar proxy, call
    \<^verbatim>\<open>ListNames\<close>, then for every discovered player in ascending order make its
    property proxy and call \<^verbatim>\<open>Get\<close> on it (each followed by lines on the error
    stream only), and only then print \<^verbatim>\<open>Unknown method\<close> with the command and the
    usage text, and end with code 127.

  In every environment, such a run makes no proxy of a player's control interface and
  calls no method on one.
\<close>

theorem unknown_command_late:
  assumes "method \<notin> {''play'', ''pause'', ''playpause'', ''stop'', ''next'', ''prev''}"
  shows "(locale_ok env \<and> get_sync env = Made \<and> create_sync env registrar = Made \<and>
          call_sync env registrar ''ListNames'' [] = Inr (names # others) \<longrightarrow>
            (discovered env names = [] \<longrightarrow>
               main argv0 [method] env =
                 ([Connect, ProxyCreate registrar, CallSync registrar ''ListNames'' [],
                   Stdout ''no player found.''], Exit 0)) \<and>
            (discovered env names \<noteq> [] \<and>
             (\<forall>p \<in> set (discovered env names).
                create_sync env (properties_proxy p) = Made \<and> state_reply env p \<noteq> Inr []) \<longrightarrow>
               (\<exists>lines. (\<forall>p. \<forall>e \<in> set (lines p). \<exists>t. e = Stderr t) \<and>
                  main argv0 [method] env =
                    ([Connect, ProxyCreate registrar, CallSync registrar ''ListNames'' []] @
                     concat (map (\<lambda>p. ProxyCreate (properties_proxy p) # state_query p # lines p)
                                 (discovered env names)) @
                     Stderr (''Unknown method '' @ method) # usage argv0,
                     Exit 127)))) \<and>
         (\<forall>player meth args.
            ProxyCreate (player_proxy player) \<notin> set (fst (main argv0 [method] env)) \<and>
            CallSync (player_proxy player) meth args \<notin> set (fst (main argv0 [method] env)))"
proof (intro conjI impI allI)
  assume init: "locale_ok env \<and> get_sync env = Made \<and> create_sync env registrar = Made \<and>
          call_sync env registrar ''ListNames'' [] = Inr (names # others)"
    and none: "discovered env names = []"
  have d: "getMediaPlayerInstances env =
             ([ProxyCreate registrar, CallSync registrar ''ListNames'' []], Inr [])"
    using discovery_run[of env names others] init none by simp
  show "main argv0 [method] env =
          ([Connect, ProxyCreate registrar, CallSync registrar ''ListNames'' [],
            Stdout ''no player found.''], Exit 0)"
    unfolding main_unknown[OF assms] using init by (simp add: d)
next
  assume init: "locale_ok env \<and> get_sync env = Made \<and> create_sync env registrar = Made \<and>
          call_sync env registrar ''ListNames'' [] = Inr (names # others)"
    and some: "discovered env names \<noteq> [] \<and>
             (\<forall>p \<in> set (discovered env names).
                create_sync env (properties_proxy p) = Made \<and> state_reply env p \<noteq> Inr [])"
  define players where "players = discovered env names"
  have d: "getMediaPlayerInstances env =
             ([ProxyCreate registrar, CallSync registrar ''ListNames'' []], Inr players)"
    unfolding players_def using discovery_run[of env names others] init by simp
  have ok: "\<forall>p \<in> set players.
             create_sync env (properties_proxy p) = Made \<and> state_reply env p \<noteq> Inr []"
    and ne: "players \<noteq> []"
    unfolding players_def using some by simp_all
  obtain lines result where l: "\<forall>p. \<forall>e \<in> set (lines p). \<exists>t. e = Stderr t"
    and a: "getMediaPlayerStates env players =
             (concat (map (\<lambda>p. ProxyCreate (properties_proxy p) # state_query p # lines p) players),
              Inr result)"
    using aggregation_run[OF ok] by blast
  have "main argv0 [method] env =
          ([Connect, ProxyCreate registrar, CallSync registrar ''ListNames'' []] @
           concat (map (\<lambda>p. ProxyCreate (properties_proxy p) # state_query p # lines p) players) @
           Stderr (''Unknown method '' @ method) # usage argv0,
           Exit 127)"
    unfolding main_unknown[OF assms] using init ne by (simp add: d a)
  then show "\<exists>lines. (\<forall>p. \<forall>e \<in> set (lines p). \<exists>t. e = Stderr t) \<and>
                  main argv0 [method] env =
                    ([Connect, ProxyCreate registrar, CallSync registrar ''ListNames'' []] @
                     concat (map (\<lambda>p. ProxyCreate (properties_proxy p) # state_query p # lines p)
                                 (discovered env names)) @
                     Stderr (''Unknown method '' @ method) # usage argv0,
                     Exit 127)"
    unfolding players_def using l by blast
next
  fix player meth args
  show "ProxyCreate (player_proxy player) \<notin> set (fst (main argv0 [method] env))"
    using main_unknown_events[OF assms, of "ProxyCreate (player_proxy player)" argv0 env]
    by auto
  show "CallSync (player_proxy player) meth args \<notin> set (fst (main argv0 [method] env))"
    using main_unknown_events[OF assms, of "CallSync (player_proxy player) meth args" argv0 env]
    by auto
qed

theorem unknown_command_late_witness:
  "''toggle'' \<notin> {''play'', ''pause'', ''playpause'', ''stop'', ''next'', ''prev''} \<and>
   locale_ok env_one_player \<and> get_sync env_one_player = Made \<and>
   create_sync env_one_player registrar = Made \<and>
   call_sync env_one_player registrar ''ListNames'' []
     = Inr [[''org.freedesktop.DBus'', '':1.42'', vlc]] \<and>
   discovered env_one_player [''org.freedesktop.DBus'', '':1.42'', vlc] = [vlc] \<and>
   create_sync env_one_player (properties_proxy vlc) = Made \<and>
   state_reply env_one_player vlc \<noteq> Inr [] \<and>
   snd (main ''mediaplayerctl'' [''toggle''] env_one_player) = Exit 127 \<and>
   state_query vlc \<in> set (fst (main ''mediaplayerctl'' [''toggle''] env_one_player)) \<and>
   ProxyCreate (player_proxy vlc) \<notin> set (fst (main ''mediaplayerctl'' [''toggle''] env_one_player)) \<and>
   CallSync (player_proxy vlc) ''toggle'' []
     \<notin> set (fst (main ''mediaplayerctl'' [''toggle''] env_one_player))"
proof -
  have u: "''toggle'' \<notin> {''play'', ''pause'', ''playpause'', ''stop'', ''next'', ''prev''}"
    by simp
  have i: "locale_ok env_one_player" "get_sync env_one_player = Made"
    "create_sync env_one_player registrar = Made"
    "call_sync env_one_player registrar ''ListNames'' []
       = Inr [[''org.freedesktop.DBus'', '':1.42'', vlc]]"
    by (simp_all add: env_defs)
  have d: "discovered env_one_player [''org.freedesktop.DBus'', '':1.42'', vlc] = [vlc]"
    by (simp add: env_defs prefix_def)
  have p: "create_sync env_one_player (properties_proxy vlc) = Made"
    "state_reply env_one_player vlc \<noteq> Inr []"
    by (simp_all add: env_defs)
  note t = unknown_command_late [OF u, of env_one_player
             "[''org.freedesktop.DBus'', '':1.42'', vlc]" "[]" "''mediaplayerctl''"]
  have "discovered env_one_player [''org.freedesktop.DBus'', '':1.42'', vlc] \<noteq> [] \<and>
        (\<forall>p \<in> set (discovered env_one_player [''org.freedesktop.DBus'', '':1.42'', vlc]).
           create_sync env_one_player (properties_proxy p) = Made \<and>
           state_reply env_one_player p \<noteq> Inr [])"
    unfolding d using p by simp
  with t i obtain lines where
    m: "main ''mediaplayerctl'' [''toggle''] env_one_player =
         ([Connect, ProxyCreate registrar, CallSync registrar ''ListNames'' []] @
          concat (map (\<lambda>p. ProxyCreate (properties_proxy p) # state_query p # lines p)
                      (discovered env_one_player [''org.freedesktop.DBus'', '':1.42'', vlc])) @
          Stderr (''Unknown method '' @ ''toggle'') # usage ''mediaplayerctl'',
          Exit 127)"
    by blast
  have code: "snd (main ''mediaplayerctl'' [''toggle''] env_one_player) = Exit 127"
    unfolding m by simp
  have q: "state_query vlc \<in> set (fst (main ''mediaplayerctl'' [''toggle''] env_one_player))"
    unfolding m d by simp
  have quiet:
    "ProxyCreate (player_proxy vlc) \<notin> set (fst (main ''mediaplayerctl'' [''toggle''] env_one_player))"
    "CallSync (player_proxy vlc) ''toggle'' []
       \<notin> set (fst (main ''mediaplayerctl'' [''toggle''] env_one_player))"
    using t by blast+
  show ?thesis using u i d p code q quiet by (intro conjI)
qed

end
